theory Spec2Isabelle
  imports Complex_Main "HOL-Library.Stream"
begin

section \<open>Data model (src/App.tsx, type declarations at the end of the file)\<close>

text \<open>
  Coordinates and scores are JavaScript numbers that only ever hold integers; they are
  modelled as \<open>int\<close>. Tick intervals are JavaScript numbers that hold multiples of
  one half; they are modelled as \<open>rat\<close>.
\<close>

record Point =
  x :: int
  y :: int

datatype Direction = UP | DOWN | LEFT | RIGHT

datatype Difficulty = EASY | MEDIUM | HARD

record DifficultyConfig =
  initialSpeed :: rat
  speedIncrement :: rat
  label :: string

text \<open>A value produced by \<open>JSON.parse\<close>; an object keeps its keys in source order.\<close>

datatype json =
    JNull
  | JBool bool
  | JNumber int
  | JString string
  | JArray "json list"
  | JObject "(string \<times> json) list"

text \<open>
  The component state of \<open>App\<close>: one field per \<open>useState\<close> hook, and
  \<open>lastDirection\<close> for the \<open>useRef\<close> of that name. Sound effects and
  \<open>localStorage\<close> writes are fire-and-forget collaborators and are not part of the state.
\<close>

record GameState =
  snake :: "Point list"
  food :: Point
  direction :: Direction
  isGameOver :: bool
  isPaused :: bool
  showPauseConfirm :: bool
  score :: int
  highScore :: int
  aiReview :: "json option"
  loadingAi :: bool
  isFullscreen :: bool
  isMuted :: bool
  difficulty :: Difficulty
  lastDirection :: Direction

definition GRID_SIZE :: int where
  "GRID_SIZE = 20"

fun DIFFICULTY_SETTINGS :: "Difficulty \<Rightarrow> DifficultyConfig" where
  "DIFFICULTY_SETTINGS EASY = \<lparr>initialSpeed = 200, speedIncrement = 3 / 2, label = ''Novice''\<rparr>"
| "DIFFICULTY_SETTINGS MEDIUM = \<lparr>initialSpeed = 140, speedIncrement = 3, label = ''Veteran''\<rparr>"
| "DIFFICULTY_SETTINGS HARD = \<lparr>initialSpeed = 90, speedIncrement = 6, label = ''Legend''\<rparr>"

text \<open>The initial values of the hooks (lines 16 to 31).\<close>

definition initialState :: GameState where
  "initialState =
     \<lparr>snake = [\<lparr>x = 10, y = 10\<rparr>, \<lparr>x = 10, y = 11\<rparr>, \<lparr>x = 10, y = 12\<rparr>],
      food = \<lparr>x = 5, y = 5\<rparr>,
      direction = UP,
      isGameOver = False,
      isPaused = True,
      showPauseConfirm = False,
      score = 0,
      highScore = 0,
      aiReview = None,
      loadingAi = False,
      isFullscreen = False,
      isMuted = False,
      difficulty = MEDIUM,
      lastDirection = UP\<rparr>"

section \<open>Difficulty and speed (lines 34 to 37)\<close>

definition currentSpeed :: "Difficulty \<Rightarrow> int \<Rightarrow> rat" where
  "currentSpeed d sc =
     (let config = DIFFICULTY_SETTINGS d
      in max 30 (initialSpeed config - (of_int sc / 10) * speedIncrement config))"

section \<open>Food placement (lines 82 to 94)\<close>

text \<open>
  \<open>generateFood\<close> draws a cell with two calls of \<open>Math.random\<close> per round of its
  \<open>while (true)\<close> loop. The draws are the stream \<open>draws\<close>: its head is the cell
  \<open>(Math.floor(Math.random() * GRID_SIZE), Math.floor(Math.random() * GRID_SIZE))\<close> of the
  current round. The loop has no other exit than the \<open>break\<close>, so the function is
  partial: \<open>None\<close> is the run that never returns.
\<close>

partial_function (option) generateFood :: "Point stream \<Rightarrow> Point list \<Rightarrow> Point option" where
  "generateFood draws currentSnake =
     (let newFood = shd draws
      in if \<not> list_ex (\<lambda>segment. x segment = x newFood \<and> y segment = y newFood) currentSnake
         then Some newFood
         else generateFood (stl draws) currentSnake)"

section \<open>End of game (lines 109 to 129)\<close>

text \<open>
  The synchronous part of \<open>endGame\<close>, up to the \<open>await\<close>: the flags, the high score
  and the loading marker. The review itself arrives later and only fills \<open>aiReview\<close>.
\<close>

definition endGame :: "GameState \<Rightarrow> GameState" where
  "endGame s =
     (let s1 = s\<lparr>isGameOver := True, isPaused := True, showPauseConfirm := False\<rparr>;
          s2 = (if score s > highScore s then s1\<lparr>highScore := score s\<rparr> else s1)
      in s2\<lparr>loadingAi := True\<rparr>)"

section \<open>Simulation tick (lines 131 to 169)\<close>

text \<open>The \<open>switch (direction)\<close> that moves a copy of the head by one cell.\<close>

fun nextHead :: "Direction \<Rightarrow> Point \<Rightarrow> Point" where
  "nextHead UP head = head\<lparr>y := y head - 1\<rparr>"
| "nextHead DOWN head = head\<lparr>y := y head + 1\<rparr>"
| "nextHead LEFT head = head\<lparr>x := x head - 1\<rparr>"
| "nextHead RIGHT head = head\<lparr>x := x head + 1\<rparr>"

text \<open>
  One tick. The result is \<open>None\<close> when the tick never completes (food placement does not
  return). On an empty snake \<open>prevSnake[0]\<close> is \<open>undefined\<close>, the coordinates of the
  copied head are \<open>undefined\<close> and \<open>NaN\<close>, every comparison with them is false, so
  the head is pushed, popped again, and only \<open>lastDirection\<close> changes.
\<close>

definition moveSnake :: "Point stream \<Rightarrow> GameState \<Rightarrow> GameState option" where
  "moveSnake draws s =
     (let prevSnake = snake s
      in case prevSnake of
           [] \<Rightarrow> Some (s\<lparr>lastDirection := direction s\<rparr>)
         | head # rest \<Rightarrow>
             (let newHead = nextHead (direction s) head
              in if x newHead < 0 \<or> x newHead \<ge> GRID_SIZE \<or> y newHead < 0 \<or> y newHead \<ge> GRID_SIZE
                 then Some (endGame s)
                 else if list_ex (\<lambda>segment. x segment = x newHead \<and> y segment = y newHead) prevSnake
                 then Some (endGame s)
                 else
                   (let newSnake = newHead # prevSnake
                    in if x newHead = x (food s) \<and> y newHead = y (food s)
                       then (case generateFood draws newSnake of
                               None \<Rightarrow> None
                             | Some newFood \<Rightarrow>
                                 Some (s\<lparr>snake := newSnake, score := score s + 10,
                                         food := newFood, lastDirection := direction s\<rparr>))
                       else Some (s\<lparr>snake := butlast newSnake,
                                    lastDirection := direction s\<rparr>))))"

text \<open>
  \<open>resetGame\<close> (lines 96 to 107). The new snake has three segments; the list handed to
  \<open>generateFood\<close> is the literal of line 98.
\<close>

definition resetGame :: "Point stream \<Rightarrow> GameState \<Rightarrow> GameState option" where
  "resetGame draws s =
     (case generateFood draws [\<lparr>x = 10, y = 10\<rparr>] of
        None \<Rightarrow> None
      | Some newFood \<Rightarrow>
          Some (s\<lparr>snake := [\<lparr>x = 10, y = 10\<rparr>, \<lparr>x = 10, y = 11\<rparr>, \<lparr>x = 10, y = 12\<rparr>],
                  food := newFood,
                  direction := UP,
                  lastDirection := UP,
                  isGameOver := False,
                  score := 0,
                  isPaused := False,
                  showPauseConfirm := False,
                  aiReview := None\<rparr>))"

section \<open>Pause, keys and difficulty (lines 182 to 244)\<close>

definition handlePauseRequest :: "GameState \<Rightarrow> GameState" where
  "handlePauseRequest s =
     (if \<not> isGameOver s \<and> score s > 0 then
        (if \<not> isPaused s
         then s\<lparr>isPaused := True, showPauseConfirm := True\<rparr>
         else s\<lparr>isPaused := False, showPauseConfirm := False\<rparr>)
      else if \<not> isGameOver s \<and> score s = 0 \<and> isPaused s then s\<lparr>isPaused := False\<rparr>
      else s)"

text \<open>
  \<open>toggleMute\<close> (lines 63 to 68) negates the \<open>isMuted\<close> of the render that created it,
  which is its first argument here. The mute button takes the function of the current
  render; the key listener may hold an older one (see below).
\<close>

definition toggleMute :: "bool \<Rightarrow> GameState \<Rightarrow> GameState" where
  "toggleMute seenMuted s = (let newMuted = \<not> seenMuted in s\<lparr>isMuted := newMuted\<rparr>)"

text \<open>
  The \<open>switch (e.key)\<close> of \<open>handleKeyDown\<close>. \<open>toggleFullscreen\<close> only sends a request
  to the browser, which leaves the component state as it is. The listener is registered by
  an effect whose dependency list (line 239) names \<open>isGameOver\<close>, \<open>isPaused\<close>,
  \<open>score\<close> and \<open>handlePauseRequest\<close> but not \<open>isMuted\<close>: the pause flag and the
  pause handler it uses are those of the current state, while the \<open>toggleMute\<close> it calls
  is the one of the render in which the listener was registered. \<open>listenerMuted\<close> is the
  \<open>isMuted\<close> of that render.
\<close>

definition handleKeyDown :: "bool \<Rightarrow> string \<Rightarrow> GameState \<Rightarrow> GameState" where
  "handleKeyDown listenerMuted key s =
     (if key = ''ArrowUp'' \<or> key = ''w'' \<or> key = ''W'' then
        (if lastDirection s \<noteq> DOWN \<and> \<not> isPaused s then s\<lparr>direction := UP\<rparr> else s)
      else if key = ''ArrowDown'' \<or> key = ''s'' \<or> key = ''S'' then
        (if lastDirection s \<noteq> UP \<and> \<not> isPaused s then s\<lparr>direction := DOWN\<rparr> else s)
      else if key = ''ArrowLeft'' \<or> key = ''a'' \<or> key = ''A'' then
        (if lastDirection s \<noteq> RIGHT \<and> \<not> isPaused s then s\<lparr>direction := LEFT\<rparr> else s)
      else if key = ''ArrowRight'' \<or> key = ''d'' \<or> key = ''D'' then
        (if lastDirection s \<noteq> LEFT \<and> \<not> isPaused s then s\<lparr>direction := RIGHT\<rparr> else s)
      else if key = '' '' \<or> key = ''Escape'' then handlePauseRequest s
      else if key = ''f'' \<or> key = ''F'' then s
      else if key = ''m'' \<or> key = ''M'' then toggleMute listenerMuted s
      else s)"

definition handleDifficultyChange :: "Difficulty \<Rightarrow> GameState \<Rightarrow> GameState" where
  "handleDifficultyChange d s = s\<lparr>difficulty := d\<rparr>"

section \<open>Overlay buttons (lines 319 to 424)\<close>

text \<open>
  A button acts only while the overlay that holds it is rendered; a click on a button that
  is not on the page cannot happen and is modelled as leaving the state alone. The three
  overlays are rendered under the conditions of lines 319, 344 and 383; the difficulty
  buttons of the second one only in its \<open>score === 0\<close> branch.
\<close>

definition difficultyButtonsShown :: "GameState \<Rightarrow> bool" where
  "difficultyButtonsShown s =
     ((isPaused s \<and> \<not> isGameOver s \<and> \<not> showPauseConfirm s \<and> score s = 0) \<or> isGameOver s)"

definition clickDifficulty :: "Difficulty \<Rightarrow> GameState \<Rightarrow> GameState" where
  "clickDifficulty d s = (if difficultyButtonsShown s then handleDifficultyChange d s else s)"

definition clickResumeGame :: "GameState \<Rightarrow> GameState" where
  "clickResumeGame s =
     (if showPauseConfirm s then s\<lparr>isPaused := False, showPauseConfirm := False\<rparr> else s)"

definition clickStayPaused :: "GameState \<Rightarrow> GameState" where
  "clickStayPaused s = (if showPauseConfirm s then s\<lparr>showPauseConfirm := False\<rparr> else s)"

definition clickStart :: "GameState \<Rightarrow> GameState" where
  "clickStart s =
     (if isPaused s \<and> \<not> isGameOver s \<and> \<not> showPauseConfirm s then s\<lparr>isPaused := False\<rparr> else s)"

definition clickRetry :: "Point stream \<Rightarrow> GameState \<Rightarrow> GameState option" where
  "clickRetry draws s = (if isGameOver s then resetGame draws s else Some s)"

section \<open>Review service (src/unnamed/part\_000, \<open>getGameReview\<close>)\<close>

record GameStats =
  stats_score :: int
  stats_highScore :: int
  stats_level :: int
  stats_foodEaten :: rat

text \<open>
  What the outside world does during one call. \<open>response.text\<close> is falsy (\<open>undefined\<close>
  or the empty string), or a text on which \<open>JSON.parse\<close> throws, or a text that
  \<open>JSON.parse\<close> turns into a value. The client constructor of line 6 stands before the
  \<open>try\<close>.
\<close>

datatype response_text = NoText | NotJson | Json json

datatype call_outcome = ClientThrows | CallRejects | CallResolves response_text

datatype review_error = ClientError

text \<open>The object literal of line 30, parsed, and the object literal of the \<open>catch\<close>.\<close>

definition defaultReview :: json where
  "defaultReview =
     JObject [(''comment'', JString ''Better luck next time, hatchling.''),
              (''rank'', JString ''Worm'')]"

definition fallbackReview :: json where
  "fallbackReview =
     JObject [(''comment'',
               JString ''Your slithering was... adequate. Try not to eat your own tail next time.''),
              (''rank'', JString ''Persistent Reptile'')]"

definition getGameReview :: "GameStats \<Rightarrow> call_outcome \<Rightarrow> review_error + json" where
  "getGameReview stats outcome =
     (case outcome of
        ClientThrows \<Rightarrow> Inl ClientError
      | CallRejects \<Rightarrow> Inr fallbackReview
      | CallResolves text \<Rightarrow>
          (case text of
             NoText \<Rightarrow> Inr defaultReview
           | NotJson \<Rightarrow> Inr fallbackReview
           | Json result \<Rightarrow> Inr result))"

text \<open>Reading a field of a parsed object, as \<open>aiReview.rank\<close> does.\<close>

fun field :: "string \<Rightarrow> json \<Rightarrow> json option" where
  "field k (JObject kvs) = map_of kvs k"
| "field k _ = None"

section \<open>Notions of the specification\<close>

text \<open>
  The specification's phases, read off the flags: the tick driver runs exactly when the game
  is neither paused nor over (lines 171 to 180), and the overlays tell the paused states
  apart.
\<close>

datatype GamePhase = READY | RUNNING | PAUSED | CONFIRM_PAUSE | OVER

definition phase :: "GameState \<Rightarrow> GamePhase" where
  "phase s =
     (if isGameOver s then OVER
      else if \<not> isPaused s then RUNNING
      else if showPauseConfirm s then CONFIRM_PAUSE
      else if score s = 0 then READY
      else PAUSED)"

definition inBounds :: "Point \<Rightarrow> bool" where
  "inBounds c = (0 \<le> x c \<and> x c < GRID_SIZE \<and> 0 \<le> y c \<and> y c < GRID_SIZE)"

text \<open>A snake that occupies every cell of the grid, checked cell by cell.\<close>

definition coversGrid :: "Point list \<Rightarrow> bool" where
  "coversGrid cs =
     list_all (\<lambda>i. list_all (\<lambda>j. list_ex (\<lambda>segment. x segment = i \<and> y segment = j) cs)
                 [0..GRID_SIZE - 1]) [0..GRID_SIZE - 1]"

fun opposite :: "Direction \<Rightarrow> Direction" where
  "opposite UP = DOWN"
| "opposite DOWN = UP"
| "opposite LEFT = RIGHT"
| "opposite RIGHT = LEFT"

text \<open>The keys that carry each directional intent (the case labels of the switch).\<close>

fun directionKeys :: "Direction \<Rightarrow> string list" where
  "directionKeys UP = [''ArrowUp'', ''w'', ''W'']"
| "directionKeys DOWN = [''ArrowDown'', ''s'', ''S'']"
| "directionKeys LEFT = [''ArrowLeft'', ''a'', ''A'']"
| "directionKeys RIGHT = [''ArrowRight'', ''d'', ''D'']"

text \<open>The tick interval in the specification's words, with its table of tiers.\<close>

fun tierInitialInterval :: "Difficulty \<Rightarrow> rat" where
  "tierInitialInterval EASY = 200"
| "tierInitialInterval MEDIUM = 140"
| "tierInitialInterval HARD = 90"

fun tierIncrementPerFoodUnit :: "Difficulty \<Rightarrow> rat" where
  "tierIncrementPerFoodUnit EASY = 3 / 2"
| "tierIncrementPerFoodUnit MEDIUM = 3"
| "tierIncrementPerFoodUnit HARD = 6"

definition tickInterval :: "Difficulty \<Rightarrow> int \<Rightarrow> rat" where
  "tickInterval d sc = max 30 (tierInitialInterval d - (of_int sc / 10) * tierIncrementPerFoodUnit d)"

text \<open>
  The states the running application can be in: the initial one, and whatever the tick, the
  keys and the buttons make of a state already reached. The tick runs only while the driver
  is armed (lines 171 to 180). The last rule stands for everything that arrives from
  outside: the settings restored from storage (lines 40 to 53), the fullscreen event and
  the review; it allows any value there, which is more than the application can produce.
\<close>

inductive reachable :: "GameState \<Rightarrow> bool" where
  reach_initial: "reachable initialState"
| reach_tick: "reachable s \<Longrightarrow> \<not> isPaused s \<Longrightarrow> \<not> isGameOver s \<Longrightarrow>
     moveSnake draws s = Some s' \<Longrightarrow> reachable s'"
| reach_key: "reachable s \<Longrightarrow> reachable (handleKeyDown listenerMuted key s)"
| reach_difficulty: "reachable s \<Longrightarrow> reachable (clickDifficulty d s)"
| reach_resume: "reachable s \<Longrightarrow> reachable (clickResumeGame s)"
| reach_stay: "reachable s \<Longrightarrow> reachable (clickStayPaused s)"
| reach_start: "reachable s \<Longrightarrow> reachable (clickStart s)"
| reach_retry: "reachable s \<Longrightarrow> clickRetry draws s = Some s' \<Longrightarrow> reachable s'"
| reach_outside: "reachable s \<Longrightarrow>
     reachable (s\<lparr>highScore := h, isMuted := m, difficulty := d, isFullscreen := f,
                  aiReview := r, loadingAi := l\<rparr>)"

section \<open>Sample states\<close>

text \<open>The grid walked row by row, alternating direction: a snake that fills the board.\<close>

definition gridRow :: "int \<Rightarrow> Point list" where
  "gridRow j = map (\<lambda>i. \<lparr>x = i, y = j\<rparr>) [0..19]"

definition serpentine :: "Point list" where
  "serpentine = concat (map (\<lambda>j. if even j then gridRow j else rev (gridRow j)) [0..19])"

text \<open>Draws that visit every cell of the board, over and over.\<close>

definition cellCycle :: "Point stream" where
  "cellCycle = cycle serpentine"

text \<open>Draws whose first cell is (10, 11), the second segment of a fresh snake.\<close>

definition bodyFirst :: "Point stream" where
  "bodyFirst = \<lparr>x = 10, y = 11\<rparr> ## cellCycle"

text \<open>A running game, three segments long, about to eat at (10, 9).\<close>

definition aboutToEat :: GameState where
  "aboutToEat = initialState\<lparr>food := \<lparr>x = 10, y = 9\<rparr>, isPaused := False\<rparr>"

text \<open>A running game whose head at (0, 5) moves left, into the wall.\<close>

definition atLeftWall :: GameState where
  "atLeftWall =
     initialState\<lparr>snake := [\<lparr>x = 0, y = 5\<rparr>, \<lparr>x = 1, y = 5\<rparr>, \<lparr>x = 2, y = 5\<rparr>],
                  direction := LEFT, lastDirection := LEFT, isPaused := False\<rparr>"

text \<open>
  A running game whose four segments form a square; the head at (5, 5) turns down, onto
  the cell (5, 6) that the tail is about to leave.
\<close>

definition tailChase :: GameState where
  "tailChase =
     initialState\<lparr>snake := [\<lparr>x = 5, y = 5\<rparr>, \<lparr>x = 6, y = 5\<rparr>, \<lparr>x = 6, y = 6\<rparr>, \<lparr>x = 5, y = 6\<rparr>],
                  food := \<lparr>x = 0, y = 0\<rparr>,
                  direction := DOWN, lastDirection := LEFT, isPaused := False, score := 10\<rparr>"

text \<open>
  A running game one meal from filling the board: the snake covers every cell but (0, 0),
  the food lies there, and the head at (1, 0) moves left.
\<close>

definition lastMeal :: GameState where
  "lastMeal =
     initialState\<lparr>snake := tl serpentine, food := \<lparr>x = 0, y = 0\<rparr>,
                  direction := LEFT, lastDirection := LEFT, isPaused := False, score := 3960\<rparr>"

text \<open>A finished game, showing the game-over overlay.\<close>

definition finished :: GameState where
  "finished = endGame atLeftWall"

text \<open>A running game with a score, and the same game with the pause dialog open.\<close>

definition midGame :: GameState where
  "midGame = initialState\<lparr>isPaused := False, score := 30\<rparr>"

definition pauseDialog :: GameState where
  "pauseDialog = midGame\<lparr>isPaused := True, showPauseConfirm := True\<rparr>"

text \<open>The same game paused, the dialog dismissed with STAY PAUSED.\<close>

definition pausedGame :: GameState where
  "pausedGame = midGame\<lparr>isPaused := True\<rparr>"

text \<open>The statistics \<open>endGame\<close> sends for that game.\<close>

definition sampleStats :: GameStats where
  "sampleStats = \<lparr>stats_score = 30, stats_highScore = 30, stats_level = 1, stats_foodEaten = 3\<rparr>"

section \<open>Food placement: what it returns, and when\<close>

lemma Point_eq_iff: "(x a = x b \<and> y a = y b) = (a = b)" for a b :: Point
  by (cases a, cases b) simp

lemma occupied_iff:
  "list_ex (\<lambda>segment. x segment = x p \<and> y segment = y p) currentSnake = (p \<in> set currentSnake)"
  for p :: Point
  by (auto simp: list_ex_iff Point_eq_iff)

lemma generateFood_unfold:
  "generateFood draws currentSnake =
     (if shd draws \<notin> set currentSnake then Some (shd draws)
      else generateFood (stl draws) currentSnake)"
  by (subst generateFood.simps) (simp add: occupied_iff Let_def)

lemma generateFood_sound:
  assumes "generateFood draws currentSnake = Some p"
  shows "p \<in> sset draws \<and> p \<notin> set currentSnake"
proof (rule generateFood.raw_induct
    [where P = "\<lambda>d c q. q \<in> sset d \<and> q \<notin> set c", OF _ assms])
  fix loop and d :: "Point stream" and c :: "Point list" and q :: Point
  assume IH: "\<And>d' c' q'. loop d' c' = Some q' \<Longrightarrow> q' \<in> sset d' \<and> q' \<notin> set c'"
    and step: "(let newFood = shd d
                in if \<not> list_ex (\<lambda>segment. x segment = x newFood \<and> y segment = y newFood) c
                   then Some newFood else loop (stl d) c) = Some q"
  show "q \<in> sset d \<and> q \<notin> set c"
  proof (cases "shd d \<in> set c")
    case True
    with step have "loop (stl d) c = Some q"
      by (simp add: Let_def occupied_iff)
    then have "q \<in> sset (stl d) \<and> q \<notin> set c" by (rule IH)
    then show ?thesis by (auto intro: stl_sset)
  next
    case False
    with step have "q = shd d" by (simp add: Let_def occupied_iff)
    with False show ?thesis by (simp add: shd_sset)
  qed
qed

lemma generateFood_first_free:
  assumes "p \<in> sset draws" and "p \<notin> set currentSnake"
  shows "generateFood draws currentSnake =
           Some (shd (sdrop_while (\<lambda>c. c \<in> set currentSnake) draws))"
  using assms
proof (induction rule: sset_induct)
  case (shd s)
  then show ?case
    by (subst generateFood_unfold) (simp add: sdrop_while.simps)
next
  case (stl s p)
  then show ?case
    by (subst generateFood_unfold, subst sdrop_while.simps) simp
qed

lemma generateFood_never:
  assumes "\<forall>p\<in>sset draws. p \<in> set currentSnake"
  shows "generateFood draws currentSnake = None"
proof (cases "generateFood draws currentSnake")
  case None
  then show ?thesis .
next
  case (Some p)
  then have "p \<in> sset draws \<and> p \<notin> set currentSnake" by (rule generateFood_sound)
  with assms show ?thesis by blast
qed

lemma generateFood_None_iff:
  "(generateFood draws currentSnake = None) = (\<forall>p\<in>sset draws. p \<in> set currentSnake)"
proof
  assume none: "generateFood draws currentSnake = None"
  show "\<forall>p\<in>sset draws. p \<in> set currentSnake"
  proof (rule ccontr)
    assume "\<not> (\<forall>p\<in>sset draws. p \<in> set currentSnake)"
    then obtain p where "p \<in> sset draws" and "p \<notin> set currentSnake" by blast
    then have "generateFood draws currentSnake \<noteq> None"
      by (simp add: generateFood_first_free)
    with none show False by simp
  qed
next
  assume "\<forall>p\<in>sset draws. p \<in> set currentSnake"
  then show "generateFood draws currentSnake = None" by (rule generateFood_never)
qed

section \<open>The board-filling snake\<close>

lemmas upto_from_0_1 = upto.simps [of 0 "numeral n"] upto.simps [of 1 "numeral n"] for n

lemma set_gridRow: "set (gridRow j) = {c. 0 \<le> x c \<and> x c \<le> 19 \<and> y c = j}"
proof -
  have "c \<in> (\<lambda>i. \<lparr>x = i, y = j\<rparr>) ` {0..19}" if "0 \<le> x c" "x c \<le> 19" "y c = j" for c :: Point
    using that by (cases c) auto
  then show ?thesis by (auto simp: gridRow_def)
qed

lemma set_serpentine: "set serpentine = {c. inBounds c}"
  by (auto simp: serpentine_def set_gridRow inBounds_def GRID_SIZE_def)

lemma serpentine_Cons: "serpentine = \<lparr>x = 0, y = 0\<rparr> # tl serpentine"
  by (simp add: serpentine_def gridRow_def upto_from_0_1)

lemma serpentine_neck: "hd (tl serpentine) = \<lparr>x = 1, y = 0\<rparr>"
  by (simp add: serpentine_def gridRow_def upto_from_0_1)

lemma serpentine_corner_free: "\<lparr>x = 0, y = 0\<rparr> \<notin> set (tl serpentine)"
  by (simp add: serpentine_def gridRow_def upto_from_0_1)

lemma length_serpentine: "length serpentine = 400"
  by (simp add: serpentine_def gridRow_def upto_from_0_1)

lemma sset_cellCycle: "sset cellCycle = {c. inBounds c}"
proof -
  have "serpentine \<noteq> []" by (subst serpentine_Cons) simp
  then show ?thesis by (simp add: cellCycle_def set_serpentine)
qed

lemma shd_cellCycle: "shd cellCycle = \<lparr>x = 0, y = 0\<rparr>"
proof -
  have "serpentine \<noteq> []" by (subst serpentine_Cons) simp
  then have "shd (cycle serpentine) = hd serpentine" by simp
  also have "\<dots> = \<lparr>x = 0, y = 0\<rparr>" by (subst serpentine_Cons) simp
  finally show ?thesis by (simp add: cellCycle_def)
qed

section \<open>The tick, case by case\<close>

lemma wall_iff:
  "(x c < 0 \<or> x c \<ge> GRID_SIZE \<or> y c < 0 \<or> y c \<ge> GRID_SIZE) = (\<not> inBounds c)"
  by (auto simp: inBounds_def)

lemma moveSnake_Cons:
  assumes "snake s = head # rest"
  shows "moveSnake draws s =
           (if \<not> inBounds (nextHead (direction s) head) then Some (endGame s)
            else if nextHead (direction s) head \<in> set (snake s) then Some (endGame s)
            else if nextHead (direction s) head = food s
            then (case generateFood draws (nextHead (direction s) head # snake s) of
                    None \<Rightarrow> None
                  | Some newFood \<Rightarrow>
                      Some (s\<lparr>snake := nextHead (direction s) head # snake s,
                              score := score s + 10, food := newFood,
                              lastDirection := direction s\<rparr>))
            else Some (s\<lparr>snake := butlast (nextHead (direction s) head # snake s),
                         lastDirection := direction s\<rparr>))"
proof -
  let ?n = "nextHead (direction s) head"
  have occ: "list_ex (\<lambda>segment. x segment = x ?n \<and> y segment = y ?n) (head # rest) =
             (?n \<in> set (head # rest))"
    by (rule occupied_iff)
  have wall: "(x ?n < 0 \<or> x ?n \<ge> GRID_SIZE \<or> y ?n < 0 \<or> y ?n \<ge> GRID_SIZE) = (\<not> inBounds ?n)"
    by (rule wall_iff)
  have eat: "(x ?n = x (food s) \<and> y ?n = y (food s)) = (?n = food s)"
    by (rule Point_eq_iff)
  show ?thesis
    by (simp only: moveSnake_def Let_def assms list.case occ wall eat)
qed

lemma moveSnake_wall:
  assumes "snake s = head # rest" and "\<not> inBounds (nextHead (direction s) head)"
  shows "moveSnake draws s = Some (endGame s)"
  using assms(2) by (simp add: moveSnake_Cons [OF assms(1)])

lemma moveSnake_body:
  assumes "snake s = head # rest" and "nextHead (direction s) head \<in> set (snake s)"
  shows "moveSnake draws s = Some (endGame s)"
  using assms(2) by (simp add: moveSnake_Cons [OF assms(1)])

lemma moveSnake_eat:
  assumes "snake s = head # rest" and "inBounds (nextHead (direction s) head)"
    and "nextHead (direction s) head \<notin> set (snake s)"
    and "nextHead (direction s) head = food s"
  shows "moveSnake draws s =
           map_option
             (\<lambda>newFood. s\<lparr>snake := food s # snake s, score := score s + 10,
                           food := newFood, lastDirection := direction s\<rparr>)
             (generateFood draws (food s # snake s))"
  using assms(2,3,4) by (simp add: moveSnake_Cons [OF assms(1)] split: option.split)

lemma moveSnake_step:
  assumes "snake s = head # rest" and "inBounds (nextHead (direction s) head)"
    and "nextHead (direction s) head \<notin> set (snake s)"
    and "nextHead (direction s) head \<noteq> food s"
  shows "moveSnake draws s =
           Some (s\<lparr>snake := nextHead (direction s) head # butlast (snake s),
                   lastDirection := direction s\<rparr>)"
  using assms(2,3,4) by (simp add: moveSnake_Cons [OF assms(1)] assms(1))

lemma endGame_flags:
  "isGameOver (endGame s)" "isPaused (endGame s)" "\<not> showPauseConfirm (endGame s)"
  "snake (endGame s) = snake s" "score (endGame s) = score s" "food (endGame s) = food s"
  by (simp_all add: endGame_def Let_def)

lemma phase_endGame: "phase (endGame s) = OVER"
  by (simp add: phase_def endGame_flags)

lemma phase_RUNNING_iff: "(phase s = RUNNING) = (\<not> isGameOver s \<and> \<not> isPaused s)"
  by (simp add: phase_def)

lemma phase_OVER_iff: "(phase s = OVER) = isGameOver s"
  by (simp add: phase_def)

lemma phase_CONFIRM_PAUSE_iff:
  "(phase s = CONFIRM_PAUSE) = (\<not> isGameOver s \<and> isPaused s \<and> showPauseConfirm s)"
  by (simp add: phase_def)

lemma phase_READY_iff:
  "(phase s = READY) = (\<not> isGameOver s \<and> isPaused s \<and> \<not> showPauseConfirm s \<and> score s = 0)"
  by (simp add: phase_def)

lemma moveSnake_flags:
  assumes "moveSnake draws s = Some s'"
  shows "s' = endGame s \<or>
         (isGameOver s' = isGameOver s \<and> isPaused s' = isPaused s \<and>
          showPauseConfirm s' = showPauseConfirm s)"
proof (cases "snake s")
  case Nil
  with assms show ?thesis by (auto simp: moveSnake_def)
next
  case (Cons head rest)
  from assms show ?thesis
    by (auto simp: moveSnake_Cons [OF Cons] split: if_splits option.splits)
qed

section \<open>An invariant of the running application\<close>

lemma reachable_over_paused:
  "reachable s \<Longrightarrow> isGameOver s \<longrightarrow> isPaused s \<and> \<not> showPauseConfirm s"
proof (induction rule: reachable.induct)
  case reach_initial
  show ?case by (simp add: initialState_def)
next
  case (reach_tick s draws s')
  from moveSnake_flags [OF reach_tick(4)] reach_tick(2,3) show ?case
    by (auto simp: endGame_flags)
next
  case (reach_key s listenerMuted key)
  then show ?case
    by (auto simp: handleKeyDown_def handlePauseRequest_def toggleMute_def Let_def)
next
  case (reach_difficulty s d)
  then show ?case by (simp add: clickDifficulty_def handleDifficultyChange_def)
next
  case (reach_resume s)
  then show ?case by (auto simp: clickResumeGame_def)
next
  case (reach_stay s)
  then show ?case by (simp add: clickStayPaused_def)
next
  case (reach_start s)
  then show ?case by (simp add: clickStart_def)
next
  case (reach_retry s draws s')
  then show ?case
    by (auto simp: clickRetry_def resetGame_def split: if_splits option.splits)
next
  case (reach_outside s h m d f r l)
  then show ?case by simp
qed

lemma coversGrid_iff: "coversGrid cs = (\<forall>c. inBounds c \<longrightarrow> c \<in> set cs)"
proof -
  have cell: "list_ex (\<lambda>segment. x segment = i \<and> y segment = j) cs = (\<lparr>x = i, y = j\<rparr> \<in> set cs)"
    for i j
    using occupied_iff [of "\<lparr>x = i, y = j\<rparr>" cs] by simp
  have "coversGrid cs = (\<forall>i j. 0 \<le> i \<and> i < GRID_SIZE \<and> 0 \<le> j \<and> j < GRID_SIZE
          \<longrightarrow> \<lparr>x = i, y = j\<rparr> \<in> set cs)"
    by (auto simp: coversGrid_def list_all_iff cell)
  also have "\<dots> = (\<forall>c. inBounds c \<longrightarrow> c \<in> set cs)"
  proof
    assume h: "\<forall>i j. 0 \<le> i \<and> i < GRID_SIZE \<and> 0 \<le> j \<and> j < GRID_SIZE \<longrightarrow> \<lparr>x = i, y = j\<rparr> \<in> set cs"
    show "\<forall>c. inBounds c \<longrightarrow> c \<in> set cs"
    proof (intro allI impI)
      fix c :: Point
      assume "inBounds c"
      with h have "\<lparr>x = x c, y = y c\<rparr> \<in> set cs" by (simp add: inBounds_def)
      moreover have "\<lparr>x = x c, y = y c\<rparr> = c" by (cases c) simp
      ultimately show "c \<in> set cs" by simp
    qed
  next
    assume h: "\<forall>c. inBounds c \<longrightarrow> c \<in> set cs"
    show "\<forall>i j. 0 \<le> i \<and> i < GRID_SIZE \<and> 0 \<le> j \<and> j < GRID_SIZE \<longrightarrow> \<lparr>x = i, y = j\<rparr> \<in> set cs"
      using h by (simp add: inBounds_def)
  qed
  finally show ?thesis .
qed

lemma coversGrid_serpentine: "coversGrid serpentine"
  by (simp add: coversGrid_iff set_serpentine)

lemma lastMeal_snake: "snake lastMeal = \<lparr>x = 1, y = 0\<rparr> # tl (tl serpentine)"
  by (simp add: lastMeal_def serpentine_def gridRow_def upto_from_0_1)

section \<open>Self-collision and the tail cell\<close>

text \<open>
  Claim C1 as worded does not hold of the code. In \<open>tailChase\<close> the game is running, the
  snake has four segments, the next head (5, 6) is not the food and is the cell of the
  tail; the tick ends the game.
\<close>

theorem C1_tail_cell_counterexample:
  "phase tailChase = RUNNING
   \<and> 2 \<le> length (snake tailChase)
   \<and> nextHead (direction tailChase) (hd (snake tailChase)) \<noteq> food tailChase
   \<and> nextHead (direction tailChase) (hd (snake tailChase)) = last (snake tailChase)
   \<and> map_option phase (moveSnake cellCycle tailChase) = Some OVER"
  by (simp add: tailChase_def initialState_def phase_def moveSnake_def endGame_def GRID_SIZE_def)

text \<open>
  Claim C1, amended. For every RUNNING state in which the snake has at least two segments
  and the tick is a non-growth tick, a tick whose new head equals the snake's current tail
  cell is a terminal self-collision: the body check runs against the snake before the move,
  tail included, so the tick moves the phase from RUNNING to OVER and leaves the snake as it
  was.
\<close>

theorem C1_tail_cell_is_collision:
  assumes "phase s = RUNNING" and "snake s = head # rest" and "rest \<noteq> []"
    and "nextHead (direction s) head \<noteq> food s"
    and "nextHead (direction s) head = last (snake s)"
  shows "moveSnake draws s = Some (endGame s) \<and> phase (endGame s) = OVER
         \<and> snake (endGame s) = snake s"
proof -
  have "last (snake s) \<in> set (snake s)" using assms(2) by simp
  with assms(5) have "nextHead (direction s) head \<in> set (snake s)" by simp
  with assms(2) have "moveSnake draws s = Some (endGame s)" by (rule moveSnake_body)
  then show ?thesis by (simp add: phase_endGame endGame_flags)
qed

theorem C1_tail_cell_is_collision_witness:
  "moveSnake cellCycle tailChase = Some (endGame tailChase) \<and> phase (endGame tailChase) = OVER
   \<and> snake (endGame tailChase) = snake tailChase"
  using C1_tail_cell_is_collision [of tailChase "\<lparr>x = 5, y = 5\<rparr>"
      "[\<lparr>x = 6, y = 5\<rparr>, \<lparr>x = 6, y = 6\<rparr>, \<lparr>x = 5, y = 6\<rparr>]" cellCycle]
  by (simp add: tailChase_def initialState_def phase_def)

section \<open>Food placement on retry\<close>

text \<open>
  Claim C2: the food stored by a placement is on no segment of the snake of that moment,
  the placement of a retry included. The tick hands the whole grown snake to
  \<open>generateFood\<close>; \<open>resetGame\<close> hands it the head alone. With (10, 11) drawn first, a
  retry of the finished game stores the food on the second of the three segments it has
  just laid out.
\<close>

theorem C2_reset_places_food_on_snake:
  "isGameOver finished
   \<and> map_option food (resetGame bodyFirst finished) = Some \<lparr>x = 10, y = 11\<rparr>
   \<and> map_option snake (resetGame bodyFirst finished)
       = Some [\<lparr>x = 10, y = 10\<rparr>, \<lparr>x = 10, y = 11\<rparr>, \<lparr>x = 10, y = 12\<rparr>]"
  by (simp add: resetGame_def bodyFirst_def generateFood_unfold [of "\<lparr>x = 10, y = 11\<rparr> ## cellCycle"]
      finished_def endGame_flags)

section \<open>Termination of food placement\<close>

text \<open>
  Claim C3 as worded does not hold of the code. \<open>serpentine\<close> occupies every cell of the
  grid, the draws visit every cell, and the placement never returns: there is no
  sentinel and no error.
\<close>

theorem C3_full_board_counterexample:
  "coversGrid serpentine \<and> generateFood cellCycle serpentine = None"
  by (simp add: coversGrid_serpentine generateFood_None_iff sset_cellCycle set_serpentine)

text \<open>
  Claim C3, amended. For every input snake, food placement terminates when some draw falls
  on a cell that the snake leaves free, and it then returns the first such draw; when
  every draw falls on the snake it never returns. In particular, for a snake occupying
  every cell of the 20 x 20 grid and draws inside the grid, it loops forever: the code has
  no sentinel, no error and no assertion for placement exhaustion.
\<close>

theorem C3_placement_returns_iff_free_draw:
  "((\<exists>p\<in>sset draws. p \<notin> set currentSnake) \<longrightarrow>
      generateFood draws currentSnake
        = Some (shd (sdrop_while (\<lambda>c. c \<in> set currentSnake) draws)))
   \<and> ((\<forall>p\<in>sset draws. p \<in> set currentSnake) \<longrightarrow> generateFood draws currentSnake = None)
   \<and> (coversGrid currentSnake \<and> (\<forall>p\<in>sset draws. inBounds p) \<longrightarrow>
        generateFood draws currentSnake = None)"
  by (auto simp: generateFood_first_free generateFood_never coversGrid_iff)

theorem C3_placement_returns_iff_free_draw_witness:
  "generateFood cellCycle (snake initialState) = Some \<lparr>x = 0, y = 0\<rparr>
   \<and> generateFood cellCycle serpentine = None"
proof -
  have free: "\<exists>p\<in>sset cellCycle. p \<notin> set (snake initialState)"
    by (rule bexI [of _ "\<lparr>x = 0, y = 0\<rparr>"])
      (simp_all add: sset_cellCycle inBounds_def GRID_SIZE_def initialState_def)
  have first: "shd (sdrop_while (\<lambda>c. c \<in> set (snake initialState)) cellCycle) = \<lparr>x = 0, y = 0\<rparr>"
    by (subst sdrop_while.simps) (simp add: shd_cellCycle initialState_def)
  have drawn: "\<forall>p\<in>sset cellCycle. inBounds p"
    by (simp add: sset_cellCycle)
  from C3_placement_returns_iff_free_draw [of cellCycle "snake initialState"] free first
  have "generateFood cellCycle (snake initialState) = Some \<lparr>x = 0, y = 0\<rparr>" by simp
  moreover from C3_placement_returns_iff_free_draw [of cellCycle serpentine]
    coversGrid_serpentine drawn
  have "generateFood cellCycle serpentine = None" by blast
  ultimately show ?thesis by simp
qed

section \<open>Changing the difficulty\<close>

text \<open>
  \<open>handleDifficultyChange\<close> itself tests nothing; the program invokes it from the
  difficulty buttons only, and these are rendered in exactly the phases READY and OVER.
\<close>

lemma difficultyButtonsShown_iff:
  "difficultyButtonsShown s = (phase s = READY \<or> phase s = OVER)"
  by (auto simp: difficultyButtonsShown_def phase_def)

lemma clickDifficulty_phase:
  "clickDifficulty d s
     = (if phase s = READY \<or> phase s = OVER then handleDifficultyChange d s else s)"
  by (simp add: clickDifficulty_def difficultyButtonsShown_iff)

text \<open>
  Claim C4. For every game state whose phase is RUNNING or PAUSED, the difficulty-change
  operation, as the program can invoke it, is rejected as a no-op: the state, the stored
  tier and with it the tick interval at every score are unchanged. The stored tier changes
  only in READY or OVER, and there the request is honoured.
\<close>

theorem C4_difficulty_change_rejected:
  "(phase s = RUNNING \<or> phase s = PAUSED \<longrightarrow>
      clickDifficulty d s = s
      \<and> difficulty (clickDifficulty d s) = difficulty s
      \<and> currentSpeed (difficulty (clickDifficulty d s)) sc = currentSpeed (difficulty s) sc)
   \<and> (difficulty (clickDifficulty d s) \<noteq> difficulty s \<longrightarrow> phase s = READY \<or> phase s = OVER)
   \<and> (phase s = READY \<or> phase s = OVER \<longrightarrow> difficulty (clickDifficulty d s) = d)"
proof (intro conjI impI)
  assume running: "phase s = RUNNING \<or> phase s = PAUSED"
  then have same: "clickDifficulty d s = s"
    by (auto simp: clickDifficulty_phase)
  then show "clickDifficulty d s = s" .
  from same show "difficulty (clickDifficulty d s) = difficulty s" by simp
  from same
  show "currentSpeed (difficulty (clickDifficulty d s)) sc = currentSpeed (difficulty s) sc"
    by simp
next
  assume changed: "difficulty (clickDifficulty d s) \<noteq> difficulty s"
  show "phase s = READY \<or> phase s = OVER"
  proof (rule ccontr)
    assume "\<not> (phase s = READY \<or> phase s = OVER)"
    then have "clickDifficulty d s = s" by (simp add: clickDifficulty_phase)
    with changed show False by simp
  qed
next
  assume "phase s = READY \<or> phase s = OVER"
  then show "difficulty (clickDifficulty d s) = d"
    by (simp add: clickDifficulty_phase handleDifficultyChange_def)
qed

theorem C4_difficulty_change_rejected_witness:
  "phase midGame = RUNNING \<and> clickDifficulty HARD midGame = midGame
   \<and> difficulty (clickDifficulty HARD midGame) = MEDIUM
   \<and> phase pausedGame = PAUSED \<and> clickDifficulty HARD pausedGame = pausedGame
   \<and> difficulty (clickDifficulty HARD pausedGame) = MEDIUM
   \<and> phase finished = OVER \<and> difficulty finished = MEDIUM
   \<and> difficulty (clickDifficulty HARD finished) = HARD
   \<and> phase initialState = READY \<and> difficulty (clickDifficulty EASY initialState) = EASY"
proof -
  have phases: "phase midGame = RUNNING" "phase pausedGame = PAUSED" "phase finished = OVER"
    "phase initialState = READY"
    by (simp_all add: midGame_def pausedGame_def initialState_def phase_def finished_def
        endGame_flags)
  have tiers: "difficulty midGame = MEDIUM" "difficulty pausedGame = MEDIUM"
    "difficulty finished = MEDIUM"
    by (simp_all add: midGame_def pausedGame_def initialState_def finished_def endGame_def
        atLeftWall_def)
  from C4_difficulty_change_rejected [of midGame HARD 30]
    C4_difficulty_change_rejected [of pausedGame HARD 30]
    C4_difficulty_change_rejected [of finished HARD 30]
    C4_difficulty_change_rejected [of initialState EASY 0]
    phases tiers
  show ?thesis by simp
qed

section \<open>The tick interval\<close>

text \<open>
  Claim C5. For every tier of the table EASY (200, 1.5), MEDIUM (140, 3), HARD (90, 6) and
  every score that is a non-negative multiple of 10, the interval the code computes is
  max(30, initialInterval - (score / 10) * incrementPerFoodUnit); it is at least 30, and a
  larger score never gives a larger interval. On such scores \<open>score / 10\<close> is a whole
  number and every value in the computation is a multiple of one half, which a JavaScript
  number holds exactly as long as it is of moderate size; a score large enough for rounding
  to set in is far beyond the point where both computations have reached the floor of 30.
  So the rational arithmetic here is the arithmetic of the code.
\<close>

theorem C5_tick_interval:
  assumes "0 \<le> sc" and "10 dvd sc"
  shows "currentSpeed d sc = tickInterval d sc
         \<and> 30 \<le> currentSpeed d sc
         \<and> (\<forall>sc'. sc \<le> sc' \<and> 10 dvd sc' \<longrightarrow> currentSpeed d sc' \<le> currentSpeed d sc)"
proof (intro conjI allI impI)
  show "currentSpeed d sc = tickInterval d sc"
    by (cases d) (simp_all add: currentSpeed_def tickInterval_def)
  show "30 \<le> currentSpeed d sc"
    by (simp add: currentSpeed_def Let_def)
  fix sc' :: int
  assume "sc \<le> sc' \<and> 10 dvd sc'"
  then have le: "(of_int sc :: rat) \<le> of_int sc'" by simp
  have pos: "0 < speedIncrement (DIFFICULTY_SETTINGS d)" by (cases d) simp_all
  from le have "(of_int sc :: rat) / 10 \<le> of_int sc' / 10" by simp
  with pos have "(of_int sc / 10) * speedIncrement (DIFFICULTY_SETTINGS d)
               \<le> (of_int sc' / 10) * speedIncrement (DIFFICULTY_SETTINGS d)"
    by (simp add: mult_right_mono)
  then show "currentSpeed d sc' \<le> currentSpeed d sc"
    by (simp add: currentSpeed_def Let_def max_def)
qed

theorem C5_tick_interval_witness:
  "currentSpeed EASY 30 = 391 / 2 \<and> tickInterval EASY 30 = 391 / 2
   \<and> 30 \<le> currentSpeed EASY 30 \<and> currentSpeed EASY 40 \<le> currentSpeed EASY 30
   \<and> currentSpeed HARD 100 = 30 \<and> currentSpeed HARD 110 = 30"
proof -
  have a: "(0::int) \<le> 30" and b: "(10::int) dvd 30" by simp_all
  note t = C5_tick_interval [OF a b, of EASY]
  have "currentSpeed EASY 30 = tickInterval EASY 30"
    by (rule t [THEN conjunct1])
  moreover have "30 \<le> currentSpeed EASY 30"
    by (rule t [THEN conjunct2, THEN conjunct1])
  moreover have "currentSpeed EASY 40 \<le> currentSpeed EASY 30"
    by (rule t [THEN conjunct2, THEN conjunct2, rule_format]) simp
  moreover have "tickInterval EASY 30 = 391 / 2" by (simp add: tickInterval_def)
  moreover have "currentSpeed HARD 100 = 30" "currentSpeed HARD 110 = 30"
    by (simp_all add: currentSpeed_def)
  ultimately show ?thesis by simp
qed

section \<open>Directional input\<close>

text \<open>
  Claim C6. For every directional intent, carried by any of its keys: the request is
  rejected, the state and with it the pending direction unchanged, exactly when the phase
  is not RUNNING or the intent is the opposite of the last applied direction; every other
  request overwrites the pending direction at once. The code tests the pause flag where the
  claim says phase; the two agree in every state in which a finished game is also paused,
  and these are all the states of the application (\<open>reachable_over_paused\<close>).
\<close>

theorem C6_direction_request:
  assumes "key \<in> set (directionKeys intent)" and "isGameOver s \<longrightarrow> isPaused s"
  shows "handleKeyDown listenerMuted key s
           = (if phase s \<noteq> RUNNING \<or> intent = opposite (lastDirection s) then s
              else s\<lparr>direction := intent\<rparr>)"
proof -
  have run: "(phase s \<noteq> RUNNING) = isPaused s"
    using assms(2) by (auto simp: phase_def)
  show ?thesis
    using assms(1)
    by (cases intent; cases "lastDirection s") (auto simp: handleKeyDown_def run)
qed

theorem C6_direction_request_witness:
  "phase midGame = RUNNING \<and> lastDirection midGame = UP
   \<and> handleKeyDown False ''ArrowDown'' midGame = midGame
   \<and> handleKeyDown False ''ArrowLeft'' midGame = midGame\<lparr>direction := LEFT\<rparr>
   \<and> handleKeyDown False ''d'' midGame = midGame\<lparr>direction := RIGHT\<rparr>
   \<and> handleKeyDown False ''a'' pausedGame = pausedGame"
proof -
  have m: "isGameOver midGame \<longrightarrow> isPaused midGame"
    and p: "isGameOver pausedGame \<longrightarrow> isPaused pausedGame"
    by (simp_all add: midGame_def pausedGame_def initialState_def)
  have "''ArrowDown'' \<in> set (directionKeys DOWN)" by simp
  from C6_direction_request [OF this m, of False]
  have 1: "handleKeyDown False ''ArrowDown'' midGame = midGame"
    by (simp add: midGame_def initialState_def phase_def)
  have "''ArrowLeft'' \<in> set (directionKeys LEFT)" by simp
  from C6_direction_request [OF this m, of False]
  have 2: "handleKeyDown False ''ArrowLeft'' midGame = midGame\<lparr>direction := LEFT\<rparr>"
    by (simp add: midGame_def initialState_def phase_def)
  have "''d'' \<in> set (directionKeys RIGHT)" by simp
  from C6_direction_request [OF this m, of False]
  have 3: "handleKeyDown False ''d'' midGame = midGame\<lparr>direction := RIGHT\<rparr>"
    by (simp add: midGame_def initialState_def phase_def)
  have "''a'' \<in> set (directionKeys LEFT)" by simp
  from C6_direction_request [OF this p, of False]
  have 4: "handleKeyDown False ''a'' pausedGame = pausedGame"
    by (simp add: midGame_def pausedGame_def initialState_def phase_def)
  have 5: "phase midGame = RUNNING \<and> lastDirection midGame = UP"
    by (simp add: midGame_def initialState_def phase_def)
  from 1 2 3 4 5 show ?thesis by simp
qed

section \<open>The growth tick\<close>

text \<open>
  Claim C7 as worded does not hold of the code. In \<open>lastMeal\<close> the game is running and the
  next head (0, 0) is inside the grid, off the snake and on the food; the grown snake
  covers the grid, no cell is left for the food, and the tick never completes.
\<close>

theorem C7_last_meal_counterexample:
  "phase lastMeal = RUNNING
   \<and> inBounds (nextHead (direction lastMeal) (hd (snake lastMeal)))
   \<and> nextHead (direction lastMeal) (hd (snake lastMeal)) \<notin> set (snake lastMeal)
   \<and> nextHead (direction lastMeal) (hd (snake lastMeal)) = food lastMeal
   \<and> coversGrid (food lastMeal # snake lastMeal)
   \<and> moveSnake cellCycle lastMeal = None"
proof -
  have dir: "direction lastMeal = LEFT" and fd: "food lastMeal = \<lparr>x = 0, y = 0\<rparr>"
    and sn: "snake lastMeal = tl serpentine"
    and ph: "phase lastMeal = RUNNING"
    by (simp_all add: lastMeal_def initialState_def phase_def)
  have nh: "nextHead (direction lastMeal) \<lparr>x = 1, y = 0\<rparr> = food lastMeal"
    by (simp add: dir fd)
  have inb: "inBounds (food lastMeal)"
    by (simp add: fd inBounds_def GRID_SIZE_def)
  have free: "food lastMeal \<notin> set (snake lastMeal)"
    by (simp only: fd sn) (rule serpentine_corner_free)
  have grown: "food lastMeal # snake lastMeal = serpentine"
    by (simp only: fd sn serpentine_Cons [symmetric])
  have "moveSnake cellCycle lastMeal =
          map_option
            (\<lambda>newFood. lastMeal\<lparr>snake := food lastMeal # snake lastMeal,
                                score := score lastMeal + 10, food := newFood,
                                lastDirection := direction lastMeal\<rparr>)
            (generateFood cellCycle (food lastMeal # snake lastMeal))"
    by (rule moveSnake_eat [OF lastMeal_snake]) (simp_all only: nh inb free not_False_eq_True)
  also have "generateFood cellCycle (food lastMeal # snake lastMeal) = None"
    by (simp only: grown generateFood_None_iff sset_cellCycle set_serpentine) simp
  finally have none: "moveSnake cellCycle lastMeal = None" by simp
  have hd: "hd (snake lastMeal) = \<lparr>x = 1, y = 0\<rparr>"
    by (simp add: lastMeal_snake)
  from ph inb nh none free show ?thesis
    by (simp only: hd grown coversGrid_serpentine) simp
qed

text \<open>
  Claim C7, amended. For every RUNNING state in which the tick's new head is in bounds, not
  occupied by the snake, and equal to the food coordinate, and in which some draw of the
  food placement falls on a cell free of the grown snake: the tick completes, after it the
  snake's head is the food cell, the snake is longer by exactly 1 with its tail retained,
  the score is higher by exactly 10, and the food has been moved to a drawn cell that is on
  no segment of the grown snake. (When the grown snake fills the grid there is no such
  draw and the tick does not complete.)
\<close>

theorem C7_growth_tick:
  assumes "phase s = RUNNING" and "snake s = head # rest"
    and "inBounds (nextHead (direction s) head)"
    and "nextHead (direction s) head \<notin> set (snake s)"
    and "nextHead (direction s) head = food s"
    and "\<exists>p\<in>sset draws. p \<notin> set (food s # snake s)"
  shows "\<exists>s'. moveSnake draws s = Some s'
           \<and> snake s' = food s # snake s
           \<and> hd (snake s') = food s
           \<and> length (snake s') = length (snake s) + 1
           \<and> last (snake s') = last (snake s)
           \<and> score s' = score s + 10
           \<and> food s' \<in> sset draws
           \<and> food s' \<notin> set (snake s')
           \<and> phase s' = RUNNING"
proof -
  from assms(6) obtain p where p: "p \<in> sset draws" "p \<notin> set (food s # snake s)" by blast
  then obtain q where q: "generateFood draws (food s # snake s) = Some q"
    by (simp add: generateFood_first_free)
  then have sound: "q \<in> sset draws \<and> q \<notin> set (food s # snake s)"
    by (rule generateFood_sound)
  let ?s' = "s\<lparr>snake := food s # snake s, score := score s + 10, food := q,
                lastDirection := direction s\<rparr>"
  have "moveSnake draws s = Some ?s'"
    by (simp add: moveSnake_eat [OF assms(2,3,4,5)] q)
  moreover have "phase ?s' = RUNNING"
    using assms(1) by (simp add: phase_def split: if_splits)
  moreover have "last (snake ?s') = last (snake s)"
    using assms(2) by simp
  ultimately show ?thesis using sound by simp
qed

theorem C7_growth_tick_witness:
  "\<exists>s'. moveSnake cellCycle aboutToEat = Some s'
     \<and> snake s' = [\<lparr>x = 10, y = 9\<rparr>, \<lparr>x = 10, y = 10\<rparr>, \<lparr>x = 10, y = 11\<rparr>, \<lparr>x = 10, y = 12\<rparr>]
     \<and> length (snake s') = 4
     \<and> score s' = 10
     \<and> food s' \<notin> set (snake s')"
proof -
  have running: "phase aboutToEat = RUNNING"
    by (simp add: aboutToEat_def initialState_def phase_def)
  have body: "snake aboutToEat = \<lparr>x = 10, y = 10\<rparr> # [\<lparr>x = 10, y = 11\<rparr>, \<lparr>x = 10, y = 12\<rparr>]"
    by (simp add: aboutToEat_def initialState_def)
  have inside: "inBounds (nextHead (direction aboutToEat) \<lparr>x = 10, y = 10\<rparr>)"
    by (simp add: aboutToEat_def initialState_def inBounds_def GRID_SIZE_def)
  have clear: "nextHead (direction aboutToEat) \<lparr>x = 10, y = 10\<rparr> \<notin> set (snake aboutToEat)"
    by (simp add: aboutToEat_def initialState_def)
  have meal: "nextHead (direction aboutToEat) \<lparr>x = 10, y = 10\<rparr> = food aboutToEat"
    by (simp add: aboutToEat_def initialState_def)
  have free: "\<exists>p\<in>sset cellCycle. p \<notin> set (food aboutToEat # snake aboutToEat)"
    by (rule bexI [of _ "\<lparr>x = 0, y = 0\<rparr>"])
      (simp_all add: sset_cellCycle inBounds_def GRID_SIZE_def aboutToEat_def initialState_def)
  from C7_growth_tick [OF running body inside clear meal free]
  show ?thesis
    by (auto simp: aboutToEat_def initialState_def)
qed

section \<open>Wall collision\<close>

text \<open>
  Claim C8. For every RUNNING state in which the tick's new head is out of bounds, the tick
  moves the phase from RUNNING to OVER and the snake after the tick is the snake before
  it.
\<close>

theorem C8_wall_collision:
  assumes "phase s = RUNNING" and "snake s = head # rest"
    and "\<not> inBounds (nextHead (direction s) head)"
  shows "moveSnake draws s = Some (endGame s) \<and> phase (endGame s) = OVER
         \<and> snake (endGame s) = snake s"
  using moveSnake_wall [OF assms(2,3)] by (simp add: phase_endGame endGame_flags)

theorem C8_wall_collision_witness:
  "phase atLeftWall = RUNNING
   \<and> x (nextHead (direction atLeftWall) (hd (snake atLeftWall))) = - 1
   \<and> moveSnake cellCycle atLeftWall = Some (endGame atLeftWall)
   \<and> phase (endGame atLeftWall) = OVER
   \<and> snake (endGame atLeftWall) = [\<lparr>x = 0, y = 5\<rparr>, \<lparr>x = 1, y = 5\<rparr>, \<lparr>x = 2, y = 5\<rparr>]"
  using C8_wall_collision [of atLeftWall "\<lparr>x = 0, y = 5\<rparr>" "[\<lparr>x = 1, y = 5\<rparr>, \<lparr>x = 2, y = 5\<rparr>]" cellCycle]
  by (simp add: atLeftWall_def initialState_def phase_def inBounds_def)

section \<open>The review and its fallback\<close>

text \<open>
  Claim C9 as worded does not hold of the code. A response whose text parses to an object
  without \<open>rank\<close> and \<open>comment\<close> is handed to the game as it is, and a response
  without text yields the default of line 30; neither is the fallback pair.
\<close>

theorem C9_malformed_review_counterexample:
  "getGameReview sampleStats (CallResolves (Json (JObject []))) = Inr (JObject [])
   \<and> JObject [] \<noteq> fallbackReview
   \<and> getGameReview sampleStats (CallResolves NoText) = Inr defaultReview
   \<and> defaultReview \<noteq> fallbackReview"
  by (simp add: getGameReview_def fallbackReview_def defaultReview_def)

text \<open>
  Claim C9, amended. For every invocation of the review operation in which the external
  call throws or rejects, or returns a text that is not JSON, the result is exactly the
  fallback pair (rank "Persistent Reptile", comment "Your slithering was... adequate. Try
  not to eat your own tail next time.") and no error reaches the caller. A response
  without text gives the separate default pair (rank "Worm"), and a text that parses is
  returned as parsed, whatever its shape.
\<close>

theorem C9_review_fallback:
  "(outcome = CallRejects \<or> outcome = CallResolves NotJson \<longrightarrow>
      getGameReview stats outcome = Inr fallbackReview)
   \<and> (outcome = CallResolves NoText \<longrightarrow> getGameReview stats outcome = Inr defaultReview)
   \<and> (outcome = CallResolves (Json v) \<longrightarrow> getGameReview stats outcome = Inr v)
   \<and> field ''rank'' fallbackReview = Some (JString ''Persistent Reptile'')
   \<and> field ''comment'' fallbackReview
       = Some (JString ''Your slithering was... adequate. Try not to eat your own tail next time.'')"
  by (auto simp: getGameReview_def fallbackReview_def)

theorem C9_review_fallback_witness:
  "getGameReview sampleStats CallRejects = Inr fallbackReview
   \<and> getGameReview sampleStats (CallResolves NotJson) = Inr fallbackReview
   \<and> getGameReview sampleStats (CallResolves NoText) = Inr defaultReview
   \<and> getGameReview sampleStats (CallResolves (Json JNull)) = Inr JNull"
  using C9_review_fallback [of CallRejects sampleStats JNull]
    C9_review_fallback [of "CallResolves NotJson" sampleStats JNull]
    C9_review_fallback [of "CallResolves NoText" sampleStats JNull]
    C9_review_fallback [of "CallResolves (Json JNull)" sampleStats JNull]
  by simp

section \<open>The pause toggle\<close>

text \<open>
  Claim C10. In every state showing the confirm-pause dialog (not over, score above 0,
  paused, confirmation pending) a pause-toggle intent resumes the game: the paused flag
  and the dialog flag both become false and the phase is RUNNING. In every state in which
  the game is over, a pause-toggle intent leaves the whole state unchanged.
\<close>

theorem C10_pause_toggle:
  "(phase s = CONFIRM_PAUSE \<and> score s > 0 \<longrightarrow>
      handlePauseRequest s = s\<lparr>isPaused := False, showPauseConfirm := False\<rparr>
      \<and> \<not> isPaused (handlePauseRequest s)
      \<and> \<not> showPauseConfirm (handlePauseRequest s)
      \<and> phase (handlePauseRequest s) = RUNNING)
   \<and> (phase s = OVER \<longrightarrow> handlePauseRequest s = s)"
  by (auto simp: handlePauseRequest_def phase_def split: if_splits)

theorem C10_pause_toggle_witness:
  "phase pauseDialog = CONFIRM_PAUSE \<and> score pauseDialog > 0
   \<and> handlePauseRequest pauseDialog = midGame
   \<and> phase (handlePauseRequest pauseDialog) = RUNNING
   \<and> phase finished = OVER
   \<and> handlePauseRequest finished = finished"
  using C10_pause_toggle [of pauseDialog] C10_pause_toggle [of finished]
  by (simp add: pauseDialog_def midGame_def initialState_def phase_def finished_def endGame_flags)

end
